theory Spec2Isabelle
  imports Complex_Main "HOL-Library.List_Lexorder" "HOL-Library.Char_ord" "HOL-Library.Multiset"
begin

section \<open>Python values, errors and the library functions the module calls\<close>

text \<open>
  The module \<^verbatim>\<open>pathwayfunctions.py\<close> holds two functions, \<^verbatim>\<open>t_tests\<close> and
  \<^verbatim>\<open>over_representation_analysis\<close>. Both are glue around pandas, numpy, scipy and
  statsmodels. The library calls are modelled here from their documented behaviour, in exact
  real arithmetic: a p-value is a \<^typ>\<open>real\<close>, and the only floating-point effects kept are the
  special values that a division by zero produces (see \<open>fl\<close> below).
\<close>

datatype error = AttributeError | KeyError | ValueError | ZeroDivisionError

text \<open>
  A cell of the pathway table: a compound identifier, or the not-a-number placeholder that
  pads a row. \<open>str_cell\<close> is Python's \<^verbatim>\<open>str(i)\<close> on a cell.
\<close>

datatype cell = Str string | NaNCell

fun str_cell :: "cell \<Rightarrow> string" where
  "str_cell (Str s) = s"
| "str_cell NaNCell = ''nan''"

fun isna :: "cell \<Rightarrow> bool" where
  "isna (Str s) = False"
| "isna NaNCell = True"

text \<open>Python's \<^verbatim>\<open>str(n)\<close> on a non-negative integer: its decimal digits.\<close>

definition digit_char :: "nat \<Rightarrow> char" where
  "digit_char d = char_of (48 + d)"

function str_nat :: "nat \<Rightarrow> string" where
  "str_nat n = (if n < 10 then [digit_char n] else str_nat (n div 10) @ [digit_char (n mod 10)])"
  by pat_completeness auto
termination
  by (relation "measure id") auto

declare str_nat.simps [simp del]

subsection \<open>numpy\<close>

text \<open>
  \<^verbatim>\<open>np.asarray\<close> on a list that mixes strings and a float gives an array of strings, the
  float printed. \<^verbatim>\<open>np.unique\<close> returns the sorted distinct values.
  \<^verbatim>\<open>np.setdiff1d(ar1, ar2)\<close> (with the default \<^verbatim>\<open>assume_unique=False\<close>) passes both
  arrays through \<^verbatim>\<open>np.unique\<close> and keeps the values of the first that are not in the second.
\<close>

definition asarray :: "cell list \<Rightarrow> string list" where
  "asarray xs = map str_cell xs"

definition unique :: "string list \<Rightarrow> string list" where
  "unique ar = sort (remdups ar)"

definition setdiff1d :: "string list \<Rightarrow> string list \<Rightarrow> string list" where
  "setdiff1d ar1 ar2 =
     (let a1 = unique ar1; a2 = unique ar2 in filter (\<lambda>x. x \<notin> set a2) a1)"

subsection \<open>scipy.stats.fisher_exact, alternative = "greater"\<close>

text \<open>
  \<^verbatim>\<open>hypergeom.cdf(k, M, n, N)\<close> is the probability of at most \<open>k\<close> marked items in a draw
  of \<open>N\<close> from \<open>M\<close> items of which \<open>n\<close> are marked. For the alternative "greater" scipy
  evaluates it on the second column of the table; a table with an empty row or column has
  p-value 1.
\<close>

definition hypergeom_pmf :: "nat \<Rightarrow> nat \<Rightarrow> nat \<Rightarrow> nat \<Rightarrow> real" where
  "hypergeom_pmf k M n N =
     (if N < k then 0
      else real ((n choose k) * ((M - n) choose (N - k))) / real (M choose N))"

definition hypergeom_cdf :: "nat \<Rightarrow> nat \<Rightarrow> nat \<Rightarrow> nat \<Rightarrow> real" where
  "hypergeom_cdf k M n N = (\<Sum>j\<leftarrow>[0..<Suc k]. hypergeom_pmf j M n N)"

definition fisher_exact_greater :: "(nat \<times> nat) \<times> (nat \<times> nat) \<Rightarrow> real" where
  "fisher_exact_greater = (\<lambda>((a, b), (c, d)).
     if a + c = 0 \<or> b + d = 0 \<or> a + b = 0 \<or> c + d = 0 then 1
     else hypergeom_cdf b (a + b + c + d) (a + b) (b + d))"

subsection \<open>statsmodels.stats.multitest.multipletests, method = "fdr_bh"\<close>

text \<open>
  \<^verbatim>\<open>multipletests\<close> first computes \<^verbatim>\<open>1./ntests\<close> with \<^verbatim>\<open>ntests = len(pvals)\<close>, which
  raises \<^verbatim>\<open>ZeroDivisionError\<close> on an empty list. For "fdr_bh" it then sorts the p-values
  (\<^verbatim>\<open>sortind = np.argsort(pvals)\<close>), divides the k-th smallest by \<open>k / ntests\<close>, takes the
  running minimum from the right, caps at 1 and writes the values back through \<open>sortind\<close>.

  numpy does not fix how \<^verbatim>\<open>argsort\<close> orders equal values. \<open>fdr_bh_sortind\<close> is the
  computation for a given sorting permutation; \<open>fdr_bh\<close> looks each p-value up in the
  sorted array instead. Lemma \<open>fdr_bh_sortind_eq\<close> below shows that every sorting permutation
  gives \<open>fdr_bh\<close>, for p-values that are not negative.
\<close>

fun minimum_accumulate :: "real list \<Rightarrow> real list" where
  "minimum_accumulate [] = []"
| "minimum_accumulate [x] = [x]"
| "minimum_accumulate (x # y # ys) = x # minimum_accumulate (min x y # ys)"

definition corrected_raw :: "real list \<Rightarrow> real list" where
  "corrected_raw pvals_sorted =
     (let ntests = length pvals_sorted;
          ecdffactor = map (\<lambda>k. real k / real ntests) [1..<Suc ntests]
      in map (\<lambda>(p, e). p / e) (zip pvals_sorted ecdffactor))"

definition fdrcorrection_sorted :: "real list \<Rightarrow> real list" where
  "fdrcorrection_sorted pvals_sorted =
     (let pvals_corrected_raw = corrected_raw pvals_sorted;
          pvals_corrected = rev (minimum_accumulate (rev pvals_corrected_raw))
      in map (\<lambda>p. if p > 1 then 1 else p) pvals_corrected)"

definition fdr_bh :: "real list \<Rightarrow> real list" where
  "fdr_bh pvals =
     (let pvals_sorted = sort pvals;
          corrected = map_of (zip pvals_sorted (fdrcorrection_sorted pvals_sorted))
      in map (\<lambda>p. case corrected p of Some q \<Rightarrow> q | None \<Rightarrow> p) pvals)"

fun index_of :: "nat \<Rightarrow> nat list \<Rightarrow> nat" where
  "index_of i [] = 0"
| "index_of i (j # js) = (if i = j then 0 else Suc (index_of i js))"

definition fdr_bh_sortind :: "nat list \<Rightarrow> real list \<Rightarrow> real list" where
  "fdr_bh_sortind sortind pvals =
     (let pvals_sorted = map (\<lambda>i. pvals ! i) sortind;
          pvals_corrected = fdrcorrection_sorted pvals_sorted
      in map (\<lambda>i. pvals_corrected ! index_of i sortind) [0..<length pvals])"

definition multipletests_fdr_bh :: "real list \<Rightarrow> error + real list" where
  "multipletests_fdr_bh pvals =
     (if length pvals = 0 then Inl ZeroDivisionError else Inr (fdr_bh pvals))"

section \<open>over_representation_analysis\<close>

text \<open>
  The pathway table: the index holds the pathway identifier, the first column is
  \<^verbatim>\<open>Pathway_name\<close>, the remaining columns are the compound slots.
\<close>

record kegg_row =
  index :: string
  name :: string
  compounds :: "cell list"

record ora_row =
  Pathway_ID :: string
  Pathway_name :: string
  Hits :: string
  Coverage :: string
  P_value :: real
  P_adjust :: real

text \<open>
  \<^verbatim>\<open>dropna(axis=0, how='all', subset=columns[1:])\<close>: a row is dropped when every compound
  slot is missing.
\<close>

definition dropna :: "kegg_row list \<Rightarrow> kegg_row list" where
  "dropna df = filter (\<lambda>r. list_ex (\<lambda>c. \<not> isna c) (compounds r)) df"

text \<open>
  \<^verbatim>\<open>KEGG_pathways.loc[pathway, :].tolist()\<close>: with a label that occurs once the row is a
  Series; with a repeated label pandas returns a DataFrame, which has no \<^verbatim>\<open>tolist\<close>.
\<close>

definition loc :: "kegg_row list \<Rightarrow> string \<Rightarrow> error + cell list" where
  "loc df label =
     (case filter (\<lambda>r. index r = label) df of
        [] \<Rightarrow> Inl KeyError
      | [r] \<Rightarrow> Inr (compounds r)
      | _ \<Rightarrow> Inl AttributeError)"

text \<open>\<^verbatim>\<open>dict(zip(keys, values))\<close>: a later pair replaces an earlier one with the same key.\<close>

definition dict_zip :: "string list \<Rightarrow> string list \<Rightarrow> (string \<rightharpoonup> string)" where
  "dict_zip ks vs = map_of (rev (zip ks vs))"

text \<open>
  The four counts of the contingency table, with the names of the source, and the table
  \<^verbatim>\<open>[[a, b], [c, d]]\<close> handed to the Fisher test. The argument \<open>pathway_compounds\<close> is the
  list built in the loop body.
\<close>

definition DA_in_pathway :: "string list \<Rightarrow> cell list \<Rightarrow> nat" where
  "DA_in_pathway DA_list pathway_compounds = card (Str ` set DA_list \<inter> set pathway_compounds)"

definition DA_not_in_pathway :: "string list \<Rightarrow> cell list \<Rightarrow> nat" where
  "DA_not_in_pathway DA_list pathway_compounds =
     length (setdiff1d DA_list (asarray pathway_compounds))"

definition compound_in_pathway_not_DA :: "string list \<Rightarrow> string list \<Rightarrow> cell list \<Rightarrow> nat" where
  "compound_in_pathway_not_DA DA_list background_list pathway_compounds =
     card (set pathway_compounds \<inter> Str ` set (setdiff1d background_list DA_list))"

definition compound_not_in_pathway_not_DA :: "string list \<Rightarrow> string list \<Rightarrow> cell list \<Rightarrow> nat" where
  "compound_not_in_pathway_not_DA DA_list background_list pathway_compounds =
     length (setdiff1d (setdiff1d background_list DA_list) (asarray pathway_compounds))"

definition contingency_table ::
  "string list \<Rightarrow> string list \<Rightarrow> cell list \<Rightarrow> (nat \<times> nat) \<times> (nat \<times> nat)" where
  "contingency_table DA_list background_list pathway_compounds =
     ((DA_in_pathway DA_list pathway_compounds,
       compound_in_pathway_not_DA DA_list background_list pathway_compounds),
      (DA_not_in_pathway DA_list pathway_compounds,
       compound_not_in_pathway_not_DA DA_list background_list pathway_compounds))"

text \<open>The lists the loop appends to.\<close>

record ora_acc =
  pathways_with_compounds :: "string list"
  pathway_names_with_compounds :: "string list"
  pvalues :: "real list"
  pathway_ratio :: "string list"
  pathway_count :: nat
  pathway_coverage :: "string list"

definition ora_init :: ora_acc where
  "ora_init = \<lparr>pathways_with_compounds = [], pathway_names_with_compounds = [], pvalues = [],
     pathway_ratio = [], pathway_count = 0, pathway_coverage = []\<rparr>"

text \<open>
  \<^verbatim>\<open>list(set(xs))\<close> lists the distinct values of \<open>xs\<close> in an order Python does not fix. The
  order is the parameter \<open>list_set\<close> of the model; \<open>set_order\<close> says that a function is such
  a listing.
\<close>

definition set_order :: "(cell list \<Rightarrow> cell list) \<Rightarrow> bool" where
  "set_order list_set = (\<forall>xs. distinct (list_set xs) \<and> set (list_set xs) = set xs)"

definition pathway_compounds_of :: "(cell list \<Rightarrow> cell list) \<Rightarrow> cell list \<Rightarrow> cell list" where
  "pathway_compounds_of list_set row = filter (\<lambda>i. str_cell i \<noteq> ''nan'') (list_set row)"

text \<open>One pass of the loop body: \<open>Inr acc\<close> unchanged is \<^verbatim>\<open>continue\<close>.\<close>

definition ora_body ::
  "(cell list \<Rightarrow> cell list) \<Rightarrow> string list \<Rightarrow> string list \<Rightarrow> kegg_row list \<Rightarrow>
   (string \<rightharpoonup> string) \<Rightarrow> string \<Rightarrow> ora_acc \<Rightarrow> error + ora_acc" where
  "ora_body list_set DA_list background_list KEGG_pathways pathway_dict pathway acc =
     (case loc KEGG_pathways pathway of
        Inl e \<Rightarrow> Inl e
      | Inr row \<Rightarrow>
          let pathway_compounds = pathway_compounds_of list_set row in
          if pathway_compounds = [] \<or> length pathway_compounds < 2 then Inr acc
          else
            let a = DA_in_pathway DA_list pathway_compounds;
                b = compound_in_pathway_not_DA DA_list background_list pathway_compounds
            in if a = 0 \<or> b + a < 2 then Inr acc
               else
                 (case pathway_dict pathway of
                    None \<Rightarrow> Inl KeyError
                  | Some pathway_name \<Rightarrow>
                      Inr (acc\<lparr>pathway_count := pathway_count acc + 1,
                        pathway_ratio := pathway_ratio acc @ [str_nat a @ ''/'' @ str_nat (b + a)],
                        pathway_coverage := pathway_coverage acc @
                          [str_nat (b + a) @ ''/'' @ str_nat (length pathway_compounds)],
                        pathways_with_compounds := pathways_with_compounds acc @ [pathway],
                        pathway_names_with_compounds :=
                          pathway_names_with_compounds acc @ [pathway_name],
                        pvalues := pvalues acc @
                          [fisher_exact_greater
                             (contingency_table DA_list background_list pathway_compounds)]\<rparr>)))"

fun ora_loop ::
  "(cell list \<Rightarrow> cell list) \<Rightarrow> string list \<Rightarrow> string list \<Rightarrow> kegg_row list \<Rightarrow>
   (string \<rightharpoonup> string) \<Rightarrow> string list \<Rightarrow> ora_acc \<Rightarrow> error + ora_acc" where
  "ora_loop list_set DA_list background_list KEGG_pathways pathway_dict [] acc = Inr acc"
| "ora_loop list_set DA_list background_list KEGG_pathways pathway_dict (pathway # rest) acc =
     (case ora_body list_set DA_list background_list KEGG_pathways pathway_dict pathway acc of
        Inl e \<Rightarrow> Inl e
      | Inr acc' \<Rightarrow>
          ora_loop list_set DA_list background_list KEGG_pathways pathway_dict rest acc')"

text \<open>
  \<^verbatim>\<open>pd.DataFrame(zip(...), columns=[six names])\<close> in the \<^verbatim>\<open>try\<close> branch: one row per
  position, as long as the shortest list.
\<close>

definition results_frame ::
  "string list \<Rightarrow> string list \<Rightarrow> string list \<Rightarrow> string list \<Rightarrow> real list \<Rightarrow> real list \<Rightarrow>
   ora_row list" where
  "results_frame ids names ratios coverages ps padj =
     map (\<lambda>(i, n, r, c, p, q).
            \<lparr>Pathway_ID = i, Pathway_name = n, Hits = r, Coverage = c, P_value = p, P_adjust = q\<rparr>)
         (zip ids (zip names (zip ratios (zip coverages (zip ps padj)))))"

text \<open>
  The \<^verbatim>\<open>except\<close> branch zips five lists under six column names: pandas accepts that only
  when there is no row.
\<close>

definition fallback_frame ::
  "string list \<Rightarrow> string list \<Rightarrow> string list \<Rightarrow> real list \<Rightarrow> real list \<Rightarrow> error + ora_row list" where
  "fallback_frame ids names ratios ps padj =
     (if zip ids (zip names (zip ratios (zip ps padj))) = [] then Inr [] else Inl ValueError)"

definition over_representation_analysis ::
  "(cell list \<Rightarrow> cell list) \<Rightarrow> string list \<Rightarrow> string list \<Rightarrow> kegg_row list \<Rightarrow>
   error + ora_row list" where
  "over_representation_analysis list_set DA_list background_list pathways_df =
     (let KEGG_pathways = dropna pathways_df;
          pathways = map index KEGG_pathways;
          pathway_names = map name KEGG_pathways;
          pathway_dict = dict_zip pathways pathway_names
      in case ora_loop list_set DA_list background_list KEGG_pathways pathway_dict pathways
                ora_init of
           Inl e \<Rightarrow> Inl e
         | Inr acc \<Rightarrow>
             (case multipletests_fdr_bh (pvalues acc) of
                Inr padj \<Rightarrow>
                  Inr (results_frame (pathways_with_compounds acc)
                         (pathway_names_with_compounds acc) (pathway_ratio acc)
                         (pathway_coverage acc) (pvalues acc) padj)
              | Inl ZeroDivisionError \<Rightarrow>
                  (let padj = replicate (length (pvalues acc)) 1
                   in fallback_frame (pathways_with_compounds acc)
                        (pathway_names_with_compounds acc) (pathway_ratio acc) (pvalues acc) padj)
              | Inl e \<Rightarrow> Inl e))"


text \<open>
  The row one pathway contributes to the lists, if it passes both filters, and the lists
  after a run of such rows. Both restate the loop body, for the proofs below.
\<close>

type_synonym entry = "string \<times> string \<times> string \<times> string \<times> real"

definition ora_entry ::
  "(cell list \<Rightarrow> cell list) \<Rightarrow> string list \<Rightarrow> string list \<Rightarrow> kegg_row \<Rightarrow> entry option" where
  "ora_entry list_set DA_list background_list r =
     (let pathway_compounds = pathway_compounds_of list_set (compounds r) in
      if length pathway_compounds < 2 then None
      else
        let a = DA_in_pathway DA_list pathway_compounds;
            b = compound_in_pathway_not_DA DA_list background_list pathway_compounds
        in if a = 0 \<or> b + a < 2 then None
           else Some (index r, name r, str_nat a @ ''/'' @ str_nat (b + a),
                  str_nat (b + a) @ ''/'' @ str_nat (length pathway_compounds),
                  fisher_exact_greater
                    (contingency_table DA_list background_list pathway_compounds)))"

definition ora_extend :: "entry list \<Rightarrow> ora_acc \<Rightarrow> ora_acc" where
  "ora_extend es acc =
     acc\<lparr>pathway_count := pathway_count acc + length es,
       pathway_ratio := pathway_ratio acc @ map (\<lambda>(i, n, h, c, p). h) es,
       pathway_coverage := pathway_coverage acc @ map (\<lambda>(i, n, h, c, p). c) es,
       pathways_with_compounds := pathways_with_compounds acc @ map (\<lambda>(i, n, h, c, p). i) es,
       pathway_names_with_compounds :=
         pathway_names_with_compounds acc @ map (\<lambda>(i, n, h, c, p). n) es,
       pvalues := pvalues acc @ map (\<lambda>(i, n, h, c, p). p) es\<rparr>"

definition entry_row :: "entry \<times> real \<Rightarrow> ora_row" where
  "entry_row = (\<lambda>((i, n, h, c, p), q).
     \<lparr>Pathway_ID = i, Pathway_name = n, Hits = h, Coverage = c, P_value = p, P_adjust = q\<rparr>)"

section \<open>t_tests\<close>

text \<open>
  A float result of the t-test: a real number, or one of the special values that a division
  by zero produces (\<open>0/0\<close> is not-a-number, \<open>x/0\<close> is an infinity with the sign of \<open>x\<close>).
\<close>

datatype fl = Fin real | NaN | PInf | NInf

text \<open>
  The abundance matrix: a row count and the columns in order, each a name and one value per
  sample.
\<close>

record dataframe =
  nrows :: nat
  columns :: "(string \<times> real list) list"

record t_row =
  Metabolite :: string
  t_P_value :: fl
  t_P_adjust :: fl
  t_statistic :: "fl option"

text \<open>
  \<^verbatim>\<open>pd.factorize(classes)[0]\<close>: each label is replaced by the position of its first
  occurrence among the distinct labels, so the first label of the list has code 0.
\<close>

fun code_of :: "'c \<Rightarrow> 'c list \<Rightarrow> nat" where
  "code_of c [] = 0"
| "code_of c (u # us) = (if c = u then 0 else Suc (code_of c us))"

definition factorize :: "'c list \<Rightarrow> nat list" where
  "factorize classes = map (\<lambda>c. code_of c (rev (remdups (rev classes)))) classes"

text \<open>
  \<^verbatim>\<open>matrix[key] = vals\<close> changes the caller's frame: a column of that name gets the new
  values, otherwise the column is appended. A value list of the wrong length raises
  \<^verbatim>\<open>ValueError\<close> and leaves the frame as it was.
\<close>

definition setitem :: "dataframe \<Rightarrow> string \<Rightarrow> real list \<Rightarrow> error + dataframe" where
  "setitem m key vals =
     (if length vals \<noteq> nrows m then Inl ValueError
      else if key \<in> fst ` set (columns m)
        then Inr (m\<lparr>columns := map (\<lambda>(n, v). if n = key then (n, vals) else (n, v)) (columns m)\<rparr>)
        else Inr (m\<lparr>columns := columns m @ [(key, vals)]\<rparr>))"

definition getitem :: "dataframe \<Rightarrow> string \<Rightarrow> error + real list" where
  "getitem m key = (case map_of (columns m) key of None \<Rightarrow> Inl KeyError | Some v \<Rightarrow> Inr v)"

text \<open>\<^verbatim>\<open>matrix[mask].copy()\<close> followed by \<^verbatim>\<open>drop([key], axis=1)\<close> on the copy.\<close>

definition take_rows :: "bool list \<Rightarrow> real list \<Rightarrow> real list" where
  "take_rows keep v = map snd (filter fst (zip keep v))"

definition select_rows :: "bool list \<Rightarrow> dataframe \<Rightarrow> dataframe" where
  "select_rows keep m =
     \<lparr>nrows = length (filter id keep),
      columns = map (\<lambda>(n, v). (n, take_rows keep v)) (columns m)\<rparr>"

definition drop_column :: "string \<Rightarrow> dataframe \<Rightarrow> dataframe" where
  "drop_column key m = m\<lparr>columns := filter (\<lambda>(n, v). n \<noteq> key) (columns m)\<rparr>"

subsection \<open>scipy.stats.ttest_ind, equal variances\<close>

definition mean :: "real list \<Rightarrow> real" where
  "mean xs = sum_list xs / real (length xs)"

definition var_ddof1 :: "real list \<Rightarrow> real" where
  "var_ddof1 xs = (\<Sum>x\<leftarrow>xs. (x - mean xs)\<^sup>2) / real (length xs - 1)"

definition np_divide :: "real \<Rightarrow> real \<Rightarrow> fl" where
  "np_divide d denom =
     (if denom = 0 then (if d = 0 then NaN else if 0 < d then PInf else NInf)
      else Fin (d / denom))"

text \<open>
  The statistic of one column. With fewer than two values in a group the sample variance is
  itself \<open>0/0\<close>, and the not-a-number reaches the statistic.
\<close>

definition ttest_ind_statistic :: "real list \<Rightarrow> real list \<Rightarrow> fl" where
  "ttest_ind_statistic a b =
     (let n1 = length a; n2 = length b
      in if n1 < 2 \<or> n2 < 2 then NaN
         else
           let v1 = var_ddof1 a; v2 = var_ddof1 b;
               df = real (n1 + n2 - 2);
               svar = (real (n1 - 1) * v1 + real (n2 - 1) * v2) / df;
               denom = sqrt (svar * (1 / real n1 + 1 / real n2));
               d = mean a - mean b
           in np_divide d denom)"

text \<open>
  The two-sided p-value: twice the survival function of Student's t distribution with
  \<open>n1 + n2 - 2\<close> degrees of freedom at \<open>|t|\<close>. The survival function \<open>sf\<close> is a parameter
  of the model; at an infinite statistic it is 0.
\<close>

definition ttest_ind_pvalue :: "(nat \<Rightarrow> real \<Rightarrow> real) \<Rightarrow> real list \<Rightarrow> real list \<Rightarrow> fl" where
  "ttest_ind_pvalue sf a b =
     (case ttest_ind_statistic a b of
        Fin t \<Rightarrow> Fin (sf (length a + length b - 2) \<bar>t\<bar> * 2)
      | NaN \<Rightarrow> NaN
      | _ \<Rightarrow> Fin 0)"

text \<open>\<^verbatim>\<open>ttest_ind(disease, ctrl)\<close> works column by column.\<close>

definition ttest_ind ::
  "(nat \<Rightarrow> real \<Rightarrow> real) \<Rightarrow> dataframe \<Rightarrow> dataframe \<Rightarrow> fl list \<times> fl list" where
  "ttest_ind sf disease ctrl =
     (map (\<lambda>((n, a), (n', b)). ttest_ind_statistic a b) (zip (columns disease) (columns ctrl)),
      map (\<lambda>((n, a), (n', b)). ttest_ind_pvalue sf a b) (zip (columns disease) (columns ctrl)))"

text \<open>
  \<^verbatim>\<open>multipletests(pvalues, 0.05, method=...)\<close>: the correction is the parameter \<open>correction\<close> of
  the model, a function from the p-values to the adjusted p-values; the division by the
  number of tests comes before it.
\<close>

definition multipletests :: "(fl list \<Rightarrow> fl list) \<Rightarrow> fl list \<Rightarrow> error + fl list" where
  "multipletests correction pvals =
     (if length pvals = 0 then Inl ZeroDivisionError else Inr (correction pvals))"

text \<open>
  The function returns its result and the caller's matrix as the call leaves it: the
  assignment to \<^verbatim>\<open>matrix['Target']\<close> is made on the caller's object, the two
  \<^verbatim>\<open>drop\<close> calls on copies.
\<close>

definition t_tests ::
  "(nat \<Rightarrow> real \<Rightarrow> real) \<Rightarrow> (fl list \<Rightarrow> fl list) \<Rightarrow> dataframe \<Rightarrow> 'c list \<Rightarrow> bool \<Rightarrow>
   (error + t_row list) \<times> dataframe" where
  "t_tests sf correction matrix classes return_stat =
     (let metabolites = map fst (columns matrix)
      in case setitem matrix ''Target'' (map real (factorize classes)) of
           Inl e \<Rightarrow> (Inl e, matrix)
         | Inr matrix' \<Rightarrow>
             (case getitem matrix' ''Target'' of
                Inl e \<Rightarrow> (Inl e, matrix')
              | Inr target \<Rightarrow>
                  let disease = drop_column ''Target''
                        (select_rows (map (\<lambda>t. t = 0) target) matrix');
                      ctrl = drop_column ''Target''
                        (select_rows (map (\<lambda>t. t \<noteq> 0) target) matrix');
                      pvalues = snd (ttest_ind sf disease ctrl);
                      tstat = fst (ttest_ind sf disease ctrl)
                  in case multipletests correction pvalues of
                       Inl e \<Rightarrow> (Inl e, matrix')
                     | Inr padj \<Rightarrow>
                         if return_stat
                         then (Inr (map (\<lambda>(m, p, q, t).
                                  \<lparr>Metabolite = m, t_P_value = p, t_P_adjust = q,
                                    t_statistic = Some t\<rparr>)
                                (zip metabolites (zip pvalues (zip padj tstat)))), matrix')
                         else (Inr (map (\<lambda>(m, p, q).
                                  \<lparr>Metabolite = m, t_P_value = p, t_P_adjust = q,
                                    t_statistic = None\<rparr>)
                                (zip metabolites (zip pvalues padj))), matrix')))"

text \<open>
  The values of one column in the two groups: the samples with class code 0 (the class of
  the first sample), and all the others.
\<close>

definition group_A :: "'c list \<Rightarrow> real list \<Rightarrow> real list" where
  "group_A classes v = take_rows (map (\<lambda>t. t = 0) (map real (factorize classes))) v"

definition group_B :: "'c list \<Rightarrow> real list \<Rightarrow> real list" where
  "group_B classes v = take_rows (map (\<lambda>t. t \<noteq> 0) (map real (factorize classes))) v"

text \<open>
  The result row of one column, given its adjusted p-value.
\<close>

definition column_row ::
  "(nat \<Rightarrow> real \<Rightarrow> real) \<Rightarrow> 'c list \<Rightarrow> bool \<Rightarrow> (string \<times> real list) \<times> fl \<Rightarrow> t_row" where
  "column_row sf classes return_stat = (\<lambda>((n, v), q).
     \<lparr>Metabolite = n,
      t_P_value = ttest_ind_pvalue sf (group_A classes v) (group_B classes v),
      t_P_adjust = q,
      t_statistic = (if return_stat
        then Some (ttest_ind_statistic (group_A classes v) (group_B classes v)) else None)\<rparr>)"

definition column_pvalues :: "(nat \<Rightarrow> real \<Rightarrow> real) \<Rightarrow> 'c list \<Rightarrow> dataframe \<Rightarrow> fl list" where
  "column_pvalues sf classes m =
     map (\<lambda>(n, v). ttest_ind_pvalue sf (group_A classes v) (group_B classes v)) (columns m)"

text \<open>
  Two instances of the parameters, for the examples. With four samples the t distribution
  has 2 degrees of freedom, and its survival function is \<open>1/2 - t / (2 sqrt (2 + t\<^sup>2))\<close>.
  The Bonferroni correction multiplies each p-value by the number of tests and caps at 1;
  a not-a-number stays.
\<close>

definition t_sf2 :: "nat \<Rightarrow> real \<Rightarrow> real" where
  "t_sf2 df t = 1 / 2 - t / (2 * sqrt (2 + t\<^sup>2))"

definition bonferroni :: "fl list \<Rightarrow> fl list" where
  "bonferroni pvals =
     map (\<lambda>p. case p of
            Fin x \<Rightarrow> Fin (if 1 < x * real (length pvals) then 1 else x * real (length pvals))
          | PInf \<Rightarrow> Fin 1
          | q \<Rightarrow> q) pvals"

section \<open>Example inputs\<close>

definition ex_df :: "kegg_row list" where
  "ex_df =
     [\<lparr>index = ''P1'', name = ''Path one'', compounds = [Str ''C1'', Str ''C3'', NaNCell, NaNCell]\<rparr>,
      \<lparr>index = ''P2'', name = ''Path two'', compounds = [Str ''C2'', NaNCell, NaNCell, NaNCell]\<rparr>,
      \<lparr>index = ''P3'', name = ''Path three'', compounds = [NaNCell, NaNCell, NaNCell, NaNCell]\<rparr>,
      \<lparr>index = ''P4'', name = ''Path four'',
        compounds = [Str ''C1'', Str ''C2'', Str ''C4'', Str ''C1'']\<rparr>]"

definition ex_classes :: "string list" where
  "ex_classes = [''case'', ''case'', ''ctrl'', ''ctrl'']"

definition ex_matrix :: dataframe where
  "ex_matrix = \<lparr>nrows = 4, columns = [(''M1'', [5, 5, 5, 5]), (''M2'', [1, 2, 1, 2])]\<rparr>"



section \<open>Lemmas: the Benjamini-Hochberg correction\<close>

lemma length_minimum_accumulate [simp]: "length (minimum_accumulate xs) = length xs"
  by (induction xs rule: minimum_accumulate.induct) simp_all

lemma minimum_accumulate_nth:
  "k < length xs \<Longrightarrow> minimum_accumulate xs ! k = Min (set (take (Suc k) xs))"
proof (induction xs arbitrary: k rule: minimum_accumulate.induct)
  case 1
  then show ?case by simp
next
  case (2 x)
  then show ?case by simp
next
  case (3 x y ys)
  show ?case
  proof (cases k)
    case 0
    then show ?thesis by simp
  next
    case (Suc k')
    with "3.prems" have k': "k' < length (min x y # ys)" by simp
    have "minimum_accumulate (x # y # ys) ! k = minimum_accumulate (min x y # ys) ! k'"
      using Suc by simp
    also have "\<dots> = Min (set (take (Suc k') (min x y # ys)))"
      by (rule "3.IH" [OF k'])
    also have "\<dots> = Min (insert (min x y) (set (take k' ys)))" by simp
    also have "\<dots> = Min (insert x (insert y (set (take k' ys))))"
    proof (cases "take k' ys")
      case Nil
      show ?thesis unfolding Nil by simp
    next
      case (Cons z zs)
      show ?thesis unfolding Cons by (simp add: min.assoc)
    qed
    also have "\<dots> = Min (set (take (Suc k) (x # y # ys)))"
      using Suc by simp
    finally show ?thesis .
  qed
qed

lemma suffix_minimum_nth:
  assumes "l < length xs"
  shows "rev (minimum_accumulate (rev xs)) ! l = Min (set (drop l xs))"
proof -
  let ?n = "length xs"
  have "rev (minimum_accumulate (rev xs)) ! l = minimum_accumulate (rev xs) ! (?n - Suc l)"
    using assms by (simp add: rev_nth)
  also have "\<dots> = Min (set (take (Suc (?n - Suc l)) (rev xs)))"
    using assms by (intro minimum_accumulate_nth) simp
  also have "Suc (?n - Suc l) = ?n - l" using assms by simp
  also have "take (?n - l) (rev xs) = rev (drop l xs)"
    using assms by (simp add: take_rev)
  finally show ?thesis by simp
qed

lemma length_corrected_raw [simp]: "length (corrected_raw S) = length S"
  by (simp add: corrected_raw_def Let_def del: upt_Suc)

lemma corrected_raw_nth:
  assumes "l < length S"
  shows "corrected_raw S ! l = S ! l / (real (Suc l) / real (length S))"
  using assms by (simp add: corrected_raw_def Let_def nth_upt del: upt_Suc)

lemma fdrcorrection_sorted_nth:
  assumes "l < length S"
  shows "fdrcorrection_sorted S ! l =
    (let q = Min (set (drop l (corrected_raw S))) in if q > 1 then 1 else q)"
proof -
  have "fdrcorrection_sorted S =
      map (\<lambda>p. if p > 1 then 1 else p) (rev (minimum_accumulate (rev (corrected_raw S))))"
    by (simp add: fdrcorrection_sorted_def Let_def)
  with assms suffix_minimum_nth [of l "corrected_raw S"] show ?thesis
    by (simp add: Let_def)
qed

lemma length_fdrcorrection_sorted [simp]: "length (fdrcorrection_sorted S) = length S"
  by (simp add: fdrcorrection_sorted_def Let_def del: upt_Suc)

lemma corrected_raw_tie:
  assumes "sorted S" and "\<And>p. p \<in> set S \<Longrightarrow> 0 \<le> p"
    and "k0 \<le> m" and "m \<le> k" and "k < length S" and "S ! k0 = S ! k"
  shows "corrected_raw S ! k \<le> corrected_raw S ! m"
proof -
  let ?n = "real (length S)"
  have m: "m < length S" using assms(4,5) by simp
  have "S ! k0 \<le> S ! m" using assms(1,3) m by (simp add: sorted_nth_mono)
  moreover have "S ! m \<le> S ! k" using assms(1,4,5) by (simp add: sorted_nth_mono)
  ultimately have eq: "S ! m = S ! k" using assms(6) by simp
  have nn: "0 \<le> S ! k" using assms(2,5) by simp
  have n: "0 < ?n" using assms(5) by (cases S) simp_all
  have "S ! k / (real (Suc k) / ?n) = S ! k * ?n / real (Suc k)" by simp
  also have "\<dots> \<le> S ! k * ?n / real (Suc m)"
    using nn n assms(4) by (intro divide_left_mono) (simp_all add: mult_nonneg_nonneg)
  also have "\<dots> = S ! m / (real (Suc m) / ?n)" by (simp add: eq)
  finally show ?thesis by (simp add: corrected_raw_nth assms(5) m)
qed

lemma fdrcorrection_sorted_tie:
  assumes "sorted S" and "\<And>p. p \<in> set S \<Longrightarrow> 0 \<le> p"
    and "k0 \<le> k" and "k < length S" and "S ! k0 = S ! k"
  shows "fdrcorrection_sorted S ! k0 = fdrcorrection_sorted S ! k"
proof -
  let ?raw = "corrected_raw S"
  let ?B = "set (drop k ?raw)"
  have k0: "k0 < length S" using assms(3,4) by simp
  have ne: "?B \<noteq> {}" using assms(4) by simp
  have rk: "?raw ! k \<in> ?B"
    using assms(4) by (metis Cons_nth_drop_Suc length_corrected_raw list.set_intros(1))
  have "Min (set (drop k0 ?raw)) = Min ?B"
  proof (rule Min_eqI)
    show "finite (set (drop k0 ?raw))" by simp
    show "Min ?B \<in> set (drop k0 ?raw)"
      using Min_in [OF _ ne] set_drop_subset_set_drop [OF assms(3), of ?raw] by auto
    fix y assume "y \<in> set (drop k0 ?raw)"
    then obtain i where i: "i < length (drop k0 ?raw)" "y = drop k0 ?raw ! i"
      by (auto simp: in_set_conv_nth)
    then have y: "y = ?raw ! (k0 + i)" and l: "k0 + i < length S" by simp_all
    show "Min ?B \<le> y"
    proof (cases "k \<le> k0 + i")
      case True
      then have "y = drop k ?raw ! (k0 + i - k)" using y l by simp
      moreover have "k0 + i - k < length (drop k ?raw)" using True l by simp
      ultimately have "y \<in> ?B" by (metis nth_mem)
      then show ?thesis by simp
    next
      case False
      then have "?raw ! k \<le> ?raw ! (k0 + i)"
        by (intro corrected_raw_tie [OF assms(1,2) _ _ assms(4,5)]) simp_all
      moreover have "Min ?B \<le> ?raw ! k" using rk by simp
      ultimately show ?thesis using y by simp
    qed
  qed
  then show ?thesis
    by (simp add: fdrcorrection_sorted_nth k0 assms(4))
qed

lemma index_of_nth:
  assumes "i \<in> set js"
  shows "index_of i js < length js \<and> js ! index_of i js = i"
  using assms by (induction js) auto

lemma map_of_zip_first:
  assumes "length C = length S" and "k < length S"
  shows "\<exists>k0\<le>k. S ! k0 = S ! k \<and> map_of (zip S C) (S ! k) = Some (C ! k0)"
  using assms
proof (induction S arbitrary: C k)
  case Nil
  then show ?case by simp
next
  case (Cons s S)
  then obtain c C' where C: "C = c # C'" by (cases C) auto
  show ?case
  proof (cases "s = (s # S) ! k")
    case True
    then have "(s # S) ! 0 = (s # S) ! k \<and>
        map_of (zip (s # S) C) ((s # S) ! k) = Some (C ! 0)"
      by (simp add: C)
    then show ?thesis by blast
  next
    case False
    then obtain k' where k: "k = Suc k'" by (cases k) auto
    with Cons.prems C have "length C' = length S" "k' < length S" by simp_all
    from Cons.IH [OF this] obtain k0 where
      "k0 \<le> k'" "S ! k0 = S ! k'" "map_of (zip S C') (S ! k') = Some (C' ! k0)"
      by blast
    with False k C have "Suc k0 \<le> k \<and> (s # S) ! Suc k0 = (s # S) ! k \<and>
        map_of (zip (s # S) C) ((s # S) ! k) = Some (C ! Suc k0)"
      by simp
    then show ?thesis by blast
  qed
qed

lemma fdr_bh_sortind_eq:
  assumes "mset sortind = mset [0..<length ps]"
    and "sorted (map (\<lambda>i. ps ! i) sortind)"
    and "\<And>p. p \<in> set ps \<Longrightarrow> 0 \<le> p"
  shows "fdr_bh_sortind sortind ps = fdr_bh ps"
proof -
  let ?S = "map (\<lambda>i. ps ! i) sortind"
  let ?C = "fdrcorrection_sorted ?S"
  have len: "length sortind = length ps"
    using mset_eq_length [OF assms(1)] by simp
  have set: "set sortind = {0..<length ps}"
    using mset_eq_setD [OF assms(1)] by simp
  have "mset ?S = image_mset (\<lambda>i. ps ! i) (mset [0..<length ps])"
    using assms(1) by (metis mset_map)
  also have "\<dots> = mset (map (\<lambda>i. ps ! i) [0..<length ps])" by simp
  also have "map (\<lambda>i. ps ! i) [0..<length ps] = ps" by (rule map_nth)
  finally have ms: "mset ?S = mset ps" .
  have S: "sort ps = ?S" by (rule properties_for_sort [OF ms assms(2)])
  have nonneg: "0 \<le> p" if "p \<in> set ?S" for p
    using that mset_eq_setD [OF ms] assms(3) by blast
  show ?thesis
  proof (rule nth_equalityI)
    show "length (fdr_bh_sortind sortind ps) = length (fdr_bh ps)"
      by (simp add: fdr_bh_sortind_def fdr_bh_def Let_def)
    fix i assume "i < length (fdr_bh_sortind sortind ps)"
    then have i: "i < length ps" by (simp add: fdr_bh_sortind_def Let_def)
    let ?k = "index_of i sortind"
    from i set have "i \<in> set sortind" by simp
    from index_of_nth [OF this] have k: "?k < length ?S" "?S ! ?k = ps ! i" by simp_all
    from map_of_zip_first [of ?C ?S ?k] k(1) obtain k0 where
      k0: "k0 \<le> ?k" "?S ! k0 = ?S ! ?k" "map_of (zip ?S ?C) (?S ! ?k) = Some (?C ! k0)"
      by auto
    have tie: "?C ! k0 = ?C ! ?k"
      by (rule fdrcorrection_sorted_tie [OF assms(2) nonneg k0(1) k(1) k0(2)])
    have "fdr_bh ps ! i = ?C ! k0"
      using i k0(3) by (simp add: fdr_bh_def Let_def S k(2))
    moreover have "fdr_bh_sortind sortind ps ! i = ?C ! ?k"
      using i by (simp add: fdr_bh_sortind_def Let_def)
    ultimately show "fdr_bh_sortind sortind ps ! i = fdr_bh ps ! i"
      using tie by simp
  qed
qed

lemma hypergeom_pmf_nonneg: "0 \<le> hypergeom_pmf k M n N"
  by (simp add: hypergeom_pmf_def)

lemma fisher_exact_greater_nonneg: "0 \<le> fisher_exact_greater t"
proof -
  have "0 \<le> hypergeom_cdf k M n N" for k M n N
    unfolding hypergeom_cdf_def by (rule sum_list_nonneg) (auto simp: hypergeom_pmf_nonneg)
  then show ?thesis
    by (cases t) (auto simp: fisher_exact_greater_def)
qed

section \<open>Lemmas: numpy set operations and the contingency counts\<close>

lemma set_unique [simp]: "set (unique ar) = set ar"
  by (simp add: unique_def)

lemma distinct_unique [simp]: "distinct (unique ar)"
  by (simp add: unique_def)

lemma set_setdiff1d [simp]: "set (setdiff1d ar1 ar2) = set ar1 - set ar2"
  by (auto simp: setdiff1d_def Let_def)

lemma distinct_setdiff1d [simp]: "distinct (setdiff1d ar1 ar2)"
  by (simp add: setdiff1d_def Let_def)

lemma length_setdiff1d: "length (setdiff1d ar1 ar2) = card (set ar1 - set ar2)"
  using distinct_card [of "setdiff1d ar1 ar2"] by simp

lemma pathway_compounds_of_Str:
  "i \<in> set (pathway_compounds_of list_set row) \<Longrightarrow> \<exists>s. i = Str s"
  by (cases i) (auto simp: pathway_compounds_of_def)

lemma set_asarray_Str:
  assumes "\<And>i. i \<in> set pc \<Longrightarrow> \<exists>s. i = Str s"
  shows "set (asarray pc) = {s. Str s \<in> set pc}"
proof -
  have "str_cell ` set pc = {s. Str s \<in> set pc}"
  proof (intro set_eqI iffI)
    fix s assume "s \<in> str_cell ` set pc"
    then obtain i where i: "i \<in> set pc" "s = str_cell i" by auto
    with assms obtain s' where "i = Str s'" by blast
    with i show "s \<in> {s. Str s \<in> set pc}" by simp
  next
    fix s assume "s \<in> {s. Str s \<in> set pc}"
    then have "Str s \<in> set pc" by simp
    then have "str_cell (Str s) \<in> str_cell ` set pc" by (rule imageI)
    then show "s \<in> str_cell ` set pc" by simp
  qed
  then show ?thesis by (simp add: asarray_def)
qed

lemma DA_in_pathway_card:
  "DA_in_pathway DA_list pc = card {x \<in> set DA_list. Str x \<in> set pc}"
proof -
  have "Str ` set DA_list \<inter> set pc = Str ` {x \<in> set DA_list. Str x \<in> set pc}" by auto
  moreover have "inj_on Str {x \<in> set DA_list. Str x \<in> set pc}" by (simp add: inj_on_def)
  ultimately show ?thesis by (simp add: DA_in_pathway_def card_image)
qed

lemma DA_not_in_pathway_card:
  "DA_not_in_pathway DA_list pc = card (set DA_list - str_cell ` set pc)"
  by (simp add: DA_not_in_pathway_def length_setdiff1d asarray_def)

lemma a_plus_c:
  assumes "\<And>i. i \<in> set pc \<Longrightarrow> \<exists>s. i = Str s"
  shows "DA_in_pathway DA_list pc + DA_not_in_pathway DA_list pc = card (set DA_list)"
proof -
  let ?A = "{x \<in> set DA_list. Str x \<in> set pc}"
  let ?C = "set DA_list - {s. Str s \<in> set pc}"
  have c: "DA_not_in_pathway DA_list pc = card ?C"
    using set_asarray_Str [OF assms] by (simp add: DA_not_in_pathway_def length_setdiff1d)
  have "card (?A \<union> ?C) = card ?A + card ?C"
    by (rule card_Un_disjoint) auto
  moreover have "?A \<union> ?C = set DA_list" by auto
  ultimately show ?thesis by (simp add: DA_in_pathway_card c)
qed

section \<open>Lemmas: the loop of over_representation_analysis\<close>

lemma ora_extend_Nil [simp]: "ora_extend [] acc = acc"
  by (simp add: ora_extend_def)

lemma ora_extend_append: "ora_extend es2 (ora_extend es1 acc) = ora_extend (es1 @ es2) acc"
  by (simp add: ora_extend_def)

lemma loc_distinct:
  assumes "distinct (map index df)" and "r \<in> set df"
  shows "loc df (index r) = Inr (compounds r)"
proof -
  have "filter (\<lambda>x. index x = index r) df = [r]"
    using assms
  proof (induction df)
    case Nil
    then show ?case by simp
  next
    case (Cons x xs)
    show ?case
    proof (cases "x = r")
      case True
      with Cons.prems have "index r \<notin> index ` set xs" by auto
      then have "\<forall>y\<in>set xs. index y \<noteq> index r" by (metis imageI)
      then have "filter (\<lambda>x. index x = index r) xs = []" by (simp add: filter_empty_conv)
      with True show ?thesis by simp
    next
      case False
      with Cons.prems have "r \<in> set xs" "index x \<noteq> index r" by auto
      with Cons show ?thesis by simp
    qed
  qed
  then show ?thesis by (simp add: loc_def)
qed

lemma dict_zip_distinct:
  assumes "distinct (map index df)" and "r \<in> set df"
  shows "dict_zip (map index df) (map name df) (index r) = Some (name r)"
proof -
  have z: "zip (map index df) (map name df) = map (\<lambda>r. (index r, name r)) df"
    by (induction df) auto
  have "distinct (map fst (rev (zip (map index df) (map name df))))"
    using assms(1) by (simp add: rev_map [symmetric])
  moreover have "(index r, name r) \<in> set (rev (zip (map index df) (map name df)))"
    using assms(2) by (simp add: z)
  ultimately show ?thesis
    unfolding dict_zip_def by (rule map_of_is_SomeI)
qed

lemma ora_body_entry:
  assumes "loc K (index r) = Inr (compounds r)" and "pathway_dict (index r) = Some (name r)"
  shows "ora_body list_set DA_list background_list K pathway_dict (index r) acc =
           Inr (ora_extend (case ora_entry list_set DA_list background_list r of
                              None \<Rightarrow> [] | Some e \<Rightarrow> [e]) acc)"
  using assms by (simp add: ora_body_def ora_entry_def Let_def ora_extend_def)

lemma ora_loop_entries:
  assumes "distinct (map index K)" and "set rs \<subseteq> set K"
    and "\<And>r. r \<in> set K \<Longrightarrow> pathway_dict (index r) = Some (name r)"
  shows "ora_loop list_set DA_list background_list K pathway_dict (map index rs) acc =
           Inr (ora_extend (List.map_filter (ora_entry list_set DA_list background_list) rs) acc)"
  using assms(2)
proof (induction rs arbitrary: acc)
  case Nil
  then show ?case by (simp add: List.map_filter_simps)
next
  case (Cons r rs)
  then have r: "r \<in> set K" and rs: "set rs \<subseteq> set K" by auto
  have body: "ora_body list_set DA_list background_list K pathway_dict (index r) acc =
           Inr (ora_extend (case ora_entry list_set DA_list background_list r of
                              None \<Rightarrow> [] | Some e \<Rightarrow> [e]) acc)"
    using loc_distinct [OF assms(1) r] assms(3) [OF r] by (rule ora_body_entry)
  show ?case
    by (simp add: body Cons.IH [OF rs] ora_extend_append List.map_filter_simps
        split: option.split)
qed


lemma results_frame_entries:
  "results_frame (map (\<lambda>(i, n, h, c, p). i) es) (map (\<lambda>(i, n, h, c, p). n) es)
     (map (\<lambda>(i, n, h, c, p). h) es) (map (\<lambda>(i, n, h, c, p). c) es)
     (map (\<lambda>(i, n, h, c, p). p) es) padj = map entry_row (zip es padj)"
proof (induction es arbitrary: padj)
  case Nil
  then show ?case by (simp add: results_frame_def)
next
  case (Cons e es)
  show ?case
  proof (cases padj)
    case Nil
    then show ?thesis by (simp add: results_frame_def)
  next
    case (Cons q qs)
    with Cons.IH [of qs] show ?thesis
      by (cases e) (simp add: results_frame_def entry_row_def)
  qed
qed

lemma length_fdr_bh [simp]: "length (fdr_bh pvals) = length pvals"
  by (simp add: fdr_bh_def Let_def)

lemma over_representation_analysis_entries:
  assumes "distinct (map index (dropna df))"
  shows "over_representation_analysis list_set DA_list background_list df =
     (let es = List.map_filter (ora_entry list_set DA_list background_list) (dropna df)
      in Inr (map entry_row (zip es (fdr_bh (map (\<lambda>(i, n, h, c, p). p) es)))))"
proof -
  let ?K = "dropna df"
  let ?es = "List.map_filter (ora_entry list_set DA_list background_list) ?K"
  have loop: "ora_loop list_set DA_list background_list ?K
      (dict_zip (map index ?K) (map name ?K)) (map index ?K) ora_init =
      Inr (ora_extend ?es ora_init)"
    by (rule ora_loop_entries [OF assms subset_refl dict_zip_distinct [OF assms]])
  have fields: "pathways_with_compounds (ora_extend ?es ora_init) = map (\<lambda>(i, n, h, c, p). i) ?es"
    "pathway_names_with_compounds (ora_extend ?es ora_init) = map (\<lambda>(i, n, h, c, p). n) ?es"
    "pathway_ratio (ora_extend ?es ora_init) = map (\<lambda>(i, n, h, c, p). h) ?es"
    "pathway_coverage (ora_extend ?es ora_init) = map (\<lambda>(i, n, h, c, p). c) ?es"
    "pvalues (ora_extend ?es ora_init) = map (\<lambda>(i, n, h, c, p). p) ?es"
    by (simp_all add: ora_extend_def ora_init_def)
  show ?thesis
  proof (cases "?es = []")
    case True
    show ?thesis
      unfolding over_representation_analysis_def Let_def loop
      by (simp add: True ora_init_def multipletests_fdr_bh_def fallback_frame_def)
  next
    case False
    then show ?thesis
      by (simp add: over_representation_analysis_def Let_def loop fields
          multipletests_fdr_bh_def results_frame_entries)
  qed
qed

lemma distinct_map_filter_once:
  assumes "\<And>x. x \<in> set xs \<Longrightarrow> length (filter (\<lambda>y. f y = f x) xs) \<le> 1"
  shows "distinct (map f xs)"
  using assms
proof (induction xs)
  case Nil
  then show ?case by simp
next
  case (Cons a xs)
  have "length (filter (\<lambda>y. f y = f a) (a # xs)) \<le> 1"
    by (rule Cons.prems) simp
  then have "filter (\<lambda>y. f y = f a) xs = []" by simp
  then have a: "f a \<notin> f ` set xs" by (auto simp: filter_empty_conv)
  have "distinct (map f xs)"
  proof (rule Cons.IH)
    fix x assume x: "x \<in> set xs"
    have "length (filter (\<lambda>y. f y = f x) xs) \<le> length (filter (\<lambda>y. f y = f x) (a # xs))"
      by simp
    also have "\<dots> \<le> 1" by (rule Cons.prems) (simp add: x)
    finally show "length (filter (\<lambda>y. f y = f x) xs) \<le> 1" .
  qed
  with a show ?case by simp
qed

lemma ora_body_Inr_loc:
  assumes "ora_body list_set DA_list background_list K pathway_dict l acc = Inr acc'"
  shows "length (filter (\<lambda>r. index r = l) K) \<le> 1"
  using assms
  by (auto simp: ora_body_def loc_def split: sum.splits list.splits)

lemma ora_loop_Inr_loc:
  assumes "ora_loop list_set DA_list background_list K pathway_dict ls acc = Inr acc'"
    and "l \<in> set ls"
  shows "length (filter (\<lambda>r. index r = l) K) \<le> 1"
  using assms
proof (induction ls arbitrary: acc)
  case Nil
  then show ?case by simp
next
  case (Cons a ls)
  from Cons.prems(1) obtain acc1 where
    b: "ora_body list_set DA_list background_list K pathway_dict a acc = Inr acc1" and
    l: "ora_loop list_set DA_list background_list K pathway_dict ls acc1 = Inr acc'"
    by (auto split: sum.splits)
  show ?case
  proof (cases "l = a")
    case True
    with ora_body_Inr_loc [OF b] show ?thesis by simp
  next
    case False
    with Cons.prems(2) have "l \<in> set ls" by simp
    with Cons.IH [OF l] show ?thesis by simp
  qed
qed

lemma over_representation_analysis_Inr_distinct:
  assumes "over_representation_analysis list_set DA_list background_list df = Inr rows"
  shows "distinct (map index (dropna df))"
proof -
  let ?K = "dropna df"
  from assms obtain acc where
    loop: "ora_loop list_set DA_list background_list ?K
      (dict_zip (map index ?K) (map name ?K)) (map index ?K) ora_init = Inr acc"
    by (auto simp: over_representation_analysis_def Let_def split: sum.splits)
  show ?thesis
  proof (rule distinct_map_filter_once)
    fix x assume "x \<in> set ?K"
    then have "index x \<in> set (map index ?K)" by simp
    from ora_loop_Inr_loc [OF loop this]
    show "length (filter (\<lambda>y. index y = index x) ?K) \<le> 1" .
  qed
qed


section \<open>Lemmas: t_tests\<close>

lemma length_factorize [simp]: "length (factorize classes) = length classes"
  by (simp add: factorize_def)

lemma map_of_append_new:
  assumes "k \<notin> fst ` set xs"
  shows "map_of (xs @ [(k, v)]) k = Some v"
  using assms by (induction xs) auto

lemma filter_not_target:
  assumes "k \<notin> fst ` set xs"
  shows "filter (\<lambda>(n, v). n \<noteq> k) (map (\<lambda>(n, v). (n, f v)) xs) = map (\<lambda>(n, v). (n, f v)) xs"
  using assms by (induction xs) auto

lemma zip_rows:
  "map (\<lambda>(m, p, q, t). \<lparr>Metabolite = m, t_P_value = p, t_P_adjust = q, t_statistic = Some t\<rparr>)
     (zip (map fst cols) (zip (map (\<lambda>(n, v). P v) cols) (zip padj (map (\<lambda>(n, v). T v) cols)))) =
   map (\<lambda>((n, v), q). \<lparr>Metabolite = n, t_P_value = P v, t_P_adjust = q, t_statistic = Some (T v)\<rparr>)
     (zip cols padj)"
proof (induction cols arbitrary: padj)
  case Nil
  then show ?case by simp
next
  case (Cons c cols)
  then show ?case by (cases padj; cases c) simp_all
qed

lemma zip_rows_nostat:
  "map (\<lambda>(m, p, q). \<lparr>Metabolite = m, t_P_value = p, t_P_adjust = q, t_statistic = None\<rparr>)
     (zip (map fst cols) (zip (map (\<lambda>(n, v). P v) cols) padj)) =
   map (\<lambda>((n, v), q). \<lparr>Metabolite = n, t_P_value = P v, t_P_adjust = q, t_statistic = None\<rparr>)
     (zip cols padj)"
proof (induction cols arbitrary: padj)
  case Nil
  then show ?case by simp
next
  case (Cons c cols)
  then show ?case by (cases padj; cases c) simp_all
qed

lemma t_tests_no_Target:
  assumes "''Target'' \<notin> fst ` set (columns m)" and "length classes = nrows m"
  shows "t_tests sf correction m classes return_stat =
     ((if columns m = [] then Inl ZeroDivisionError
       else Inr (map (column_row sf classes return_stat)
              (zip (columns m) (correction (column_pvalues sf classes m))))),
      m\<lparr>columns := columns m @ [(''Target'', map real (factorize classes))]\<rparr>)"
proof -
  define codes where "codes = map real (factorize classes)"
  let ?m' = "m\<lparr>columns := columns m @ [(''Target'', codes)]\<rparr>"
  have len: "length codes = nrows m"
    using assms(2) by (simp add: codes_def)
  have set: "setitem m ''Target'' codes = Inr ?m'"
    using assms(1) len by (simp add: setitem_def)
  have get: "getitem ?m' ''Target'' = Inr codes"
    using map_of_append_new [OF assms(1)] by (simp add: getitem_def)
  have dis: "columns (drop_column ''Target'' (select_rows keep ?m')) =
      map (\<lambda>(n, v). (n, take_rows keep v)) (columns m)" for keep
    using filter_not_target [OF assms(1)] by (simp add: drop_column_def select_rows_def)
  have z: "zip (map (\<lambda>(n, v). (n, f v)) cols) (map (\<lambda>(n, v). (n, g v)) cols) =
      map (\<lambda>(n, v). ((n, f v), (n, g v))) cols" for f g :: "real list \<Rightarrow> real list"
      and cols :: "(string \<times> real list) list"
    by (induction cols) auto
  have tt: "ttest_ind sf (drop_column ''Target'' (select_rows (map (\<lambda>t. t = 0) codes) ?m'))
        (drop_column ''Target'' (select_rows (map (\<lambda>t. t \<noteq> 0) codes) ?m')) =
      (map (\<lambda>(n, v). ttest_ind_statistic (group_A classes v) (group_B classes v)) (columns m),
       column_pvalues sf classes m)"
    unfolding ttest_ind_def dis z
    unfolding group_A_def group_B_def column_pvalues_def codes_def
    by (simp add: case_prod_unfold comp_def)
  have rows_stat: "map (\<lambda>(m, p, q, t). \<lparr>Metabolite = m, t_P_value = p, t_P_adjust = q, t_statistic = Some t\<rparr>)
      (zip (map fst (columns m)) (zip (column_pvalues sf classes m)
        (zip padj (map (\<lambda>(n, v). ttest_ind_statistic (group_A classes v) (group_B classes v))
           (columns m))))) =
      map (column_row sf classes True) (zip (columns m) padj)" for padj
    unfolding column_pvalues_def zip_rows column_row_def by simp
  have rows_nostat: "map (\<lambda>(m, p, q). \<lparr>Metabolite = m, t_P_value = p, t_P_adjust = q, t_statistic = None\<rparr>)
      (zip (map fst (columns m)) (zip (column_pvalues sf classes m) padj)) =
      map (column_row sf classes False) (zip (columns m) padj)" for padj
    unfolding column_pvalues_def zip_rows_nostat column_row_def by simp
  have main: "t_tests sf correction m classes return_stat =
      (case multipletests correction (column_pvalues sf classes m) of
         Inl e \<Rightarrow> (Inl e, ?m')
       | Inr padj \<Rightarrow> (Inr (map (column_row sf classes return_stat) (zip (columns m) padj)), ?m'))"
    unfolding t_tests_def codes_def [symmetric]
    by (cases return_stat)
      (simp_all add: Let_def set get tt rows_stat rows_nostat split: sum.split)
  show ?thesis
    unfolding main by (simp add: multipletests_def column_pvalues_def codes_def)
qed


lemma factorize_ex: "factorize ex_classes = [0, 0, 1, 1]"
  by (simp add: factorize_def ex_classes_def)

lemma stat_const: "ttest_ind_statistic [5, 5] [5, 5] = NaN"
  by (simp add: ttest_ind_statistic_def Let_def var_ddof1_def mean_def np_divide_def)

lemma stat_same: "ttest_ind_statistic [1, 2] [1, 2] = Fin 0"
  by (simp add: ttest_ind_statistic_def Let_def var_ddof1_def mean_def np_divide_def power2_eq_square)


lemma t_tests_ex_matrix:
  "t_tests t_sf2 bonferroni ex_matrix ex_classes True =
     (Inr [\<lparr>Metabolite = ''M1'', t_P_value = NaN, t_P_adjust = NaN, t_statistic = Some NaN\<rparr>,
           \<lparr>Metabolite = ''M2'', t_P_value = Fin 1, t_P_adjust = Fin 1,
             t_statistic = Some (Fin 0)\<rparr>],
      \<lparr>nrows = 4, columns = [(''M1'', [5, 5, 5, 5]), (''M2'', [1, 2, 1, 2]),
         (''Target'', [0, 0, 1, 1])]\<rparr>)"
  by (simp add: t_tests_def factorize_ex ex_matrix_def setitem_def getitem_def select_rows_def
      take_rows_def drop_column_def ttest_ind_def ttest_ind_pvalue_def stat_const stat_same
      multipletests_def bonferroni_def t_sf2_def Let_def)

section \<open>Lemmas: the order of a set\<close>

lemma set_order_remdups: "set_order remdups"
  by (simp add: set_order_def)

lemma pathway_compounds_of_set:
  assumes "set_order list_set"
  shows "set (pathway_compounds_of list_set row) = {c \<in> set row. str_cell c \<noteq> ''nan''}"
    and "distinct (pathway_compounds_of list_set row)"
  using assms by (auto simp: pathway_compounds_of_def set_order_def)

lemma pathway_compounds_of_length:
  assumes "set_order list_set"
  shows "length (pathway_compounds_of list_set row) = card {c \<in> set row. str_cell c \<noteq> ''nan''}"
  using pathway_compounds_of_set [OF assms, of row] distinct_card by metis

section \<open>Lemmas: rows of the result\<close>

lemma setdiff1d_filter: "setdiff1d ar1 ar2 = filter (\<lambda>x. x \<notin> set ar2) (unique ar1)"
  by (simp add: setdiff1d_def Let_def)

lemma contingency_table_set:
  assumes "set pc = set pc'"
  shows "contingency_table DA_list background_list pc = contingency_table DA_list background_list pc'"
    and "DA_in_pathway DA_list pc = DA_in_pathway DA_list pc'"
    and "compound_in_pathway_not_DA DA_list background_list pc =
         compound_in_pathway_not_DA DA_list background_list pc'"
  using assms
  by (simp_all add: contingency_table_def DA_in_pathway_def DA_not_in_pathway_def
      compound_in_pathway_not_DA_def compound_not_in_pathway_not_DA_def setdiff1d_filter
      asarray_def)

lemma pathway_compounds_of_order:
  assumes "set_order ls1" and "set_order ls2"
  shows "set (pathway_compounds_of ls1 row) = set (pathway_compounds_of ls2 row)"
    and "length (pathway_compounds_of ls1 row) = length (pathway_compounds_of ls2 row)"
  using pathway_compounds_of_set(1) [OF assms(1)] pathway_compounds_of_set(1) [OF assms(2)]
    pathway_compounds_of_length [OF assms(1)] pathway_compounds_of_length [OF assms(2)]
  by simp_all

lemma ora_body_order:
  assumes "set_order ls1" and "set_order ls2"
  shows "ora_body ls1 DA_list background_list K pathway_dict l acc =
         ora_body ls2 DA_list background_list K pathway_dict l acc"
proof (cases "loc K l")
  case (Inl e)
  then show ?thesis by (simp add: ora_body_def)
next
  case (Inr row)
  note s = pathway_compounds_of_order [OF assms, of row]
  have e: "pathway_compounds_of ls1 row = [] \<longleftrightarrow> pathway_compounds_of ls2 row = []"
    using s(2) by (metis length_0_conv)
  show ?thesis
    unfolding ora_body_def Inr sum.case Let_def
      contingency_table_set [OF s(1)] s(2) e
    by (rule refl)
qed

lemma ora_loop_order:
  assumes "set_order ls1" and "set_order ls2"
  shows "ora_loop ls1 DA_list background_list K pathway_dict ls acc =
         ora_loop ls2 DA_list background_list K pathway_dict ls acc"
  by (induction ls arbitrary: acc) (simp_all add: ora_body_order [OF assms] split: sum.split)

lemma set_order_rev_remdups: "set_order (\<lambda>xs. rev (remdups xs))"
  by (simp add: set_order_def)


lemma ora_entry_Some:
  assumes "ora_entry list_set DA_list background_list r = Some (i, n, h, c, p)"
  shows "i = index r" and "n = name r"
    and "2 \<le> length (pathway_compounds_of list_set (compounds r))"
    and "DA_in_pathway DA_list (pathway_compounds_of list_set (compounds r)) \<noteq> 0"
    and "2 \<le> DA_in_pathway DA_list (pathway_compounds_of list_set (compounds r)) +
           compound_in_pathway_not_DA DA_list background_list
             (pathway_compounds_of list_set (compounds r))"
  using assms by (auto simp: ora_entry_def Let_def split: if_splits)

lemma set_map_filter_entry:
  "e \<in> set (List.map_filter f xs) \<longleftrightarrow> (\<exists>x\<in>set xs. f x = Some e)"
  by (induction xs) (auto simp: List.map_filter_simps split: option.splits)


lemma zip_map_same: "zip xs (map f xs) = map (\<lambda>x. (x, f x)) xs"
  by (induction xs) auto







lemma ora_rows_entry:
  assumes "over_representation_analysis list_set DA_list background_list df = Inr rows"
    and "row \<in> set rows"
  shows "\<exists>r\<in>set (dropna df). \<exists>h c p.
           ora_entry list_set DA_list background_list r =
             Some (Pathway_ID row, Pathway_name row, h, c, p)"
proof -
  have d: "distinct (map index (dropna df))"
    by (rule over_representation_analysis_Inr_distinct [OF assms(1)])
  let ?es = "List.map_filter (ora_entry list_set DA_list background_list) (dropna df)"
  from assms(1) have "rows = map entry_row (zip ?es (fdr_bh (map (\<lambda>(i, n, h, c, p). p) ?es)))"
    by (simp add: over_representation_analysis_entries [OF d] Let_def)
  with assms(2) obtain e q where eq: "(e, q) \<in> set (zip ?es (fdr_bh (map (\<lambda>(i, n, h, c, p). p) ?es)))"
    and row: "row = entry_row (e, q)" by auto
  from eq have "e \<in> set ?es" by (rule set_zip_leftD)
  then obtain r where r: "r \<in> set (dropna df)"
    "ora_entry list_set DA_list background_list r = Some e"
    by (auto simp: set_map_filter_entry)
  obtain i n h c p where e: "e = (i, n, h, c, p)" by (cases e)
  with row have "Pathway_ID row = i" "Pathway_name row = n" by (simp_all add: entry_row_def)
  with r e show ?thesis by blast
qed

lemma ex_result:
  "over_representation_analysis remdups [''C1'', ''C2''] [''C1'', ''C2'', ''C3'', ''C4''] ex_df =
   Inr [\<lparr>Pathway_ID = ''P1'', Pathway_name = ''Path one'', Hits = ''1/2'', Coverage = ''2/2'',
          P_value = 5 / 6, P_adjust = 5 / 6\<rparr>,
        \<lparr>Pathway_ID = ''P4'', Pathway_name = ''Path four'', Hits = ''2/3'', Coverage = ''3/3'',
          P_value = 1 / 2, P_adjust = 5 / 6\<rparr>]"
  by code_simp

lemma fisher_balanced: "fisher_exact_greater ((1, 1), (1, 1)) = 5 / 6"
  by code_simp

section \<open>Lemmas: rows of t_tests, permuted pathway tables\<close>
















section \<open>The contingency table\<close>

text \<open>
  C1. The claim: the count \<open>c\<close> of differentially abundant compounds outside the pathway
  keeps the duplicates of \<open>DA_list\<close>, each occurrence counting. The code computes \<open>c\<close> with
  \<^verbatim>\<open>np.setdiff1d\<close>, which returns distinct values: with \<open>C5\<close> twice in \<open>DA_list\<close> and
  outside the pathway, \<open>c\<close> is 1, where counting occurrences gives 2.
\<close>

theorem DA_not_in_pathway_counterexample:
  "DA_not_in_pathway [''C5'', ''C5'', ''C1''] [Str ''C1'', Str ''C3''] = 1 \<and>
   length (filter (\<lambda>x. x \<notin> set (asarray [Str ''C1'', Str ''C3'']))
     [''C5'', ''C5'', ''C1'']) = 2"
  by code_simp

text \<open>
  C1, as the code has it: for every pathway that is tested, \<open>c\<close> is the number of distinct
  identifiers of \<open>DA_list\<close> that are not compounds of the pathway.
\<close>

theorem DA_not_in_pathway_distinct:
  "DA_not_in_pathway DA_list (pathway_compounds_of list_set row) =
     card (set DA_list - {s. Str s \<in> set (pathway_compounds_of list_set row)})"
  using set_asarray_Str [of "pathway_compounds_of list_set row", OF pathway_compounds_of_Str]
  by (simp add: DA_not_in_pathway_def length_setdiff1d)

theorem DA_not_in_pathway_distinct_witness:
  "DA_not_in_pathway [''C5'', ''C5'', ''C1'']
     (pathway_compounds_of remdups [Str ''C1'', Str ''C3'', NaNCell]) = 1 \<and>
   card (set [''C5'', ''C5'', ''C1''] -
     {s. Str s \<in> set (pathway_compounds_of remdups [Str ''C1'', Str ''C3'', NaNCell])}) = 1"
proof -
  have "DA_not_in_pathway [''C5'', ''C5'', ''C1'']
      (pathway_compounds_of remdups [Str ''C1'', Str ''C3'', NaNCell]) = 1"
    by code_simp
  with DA_not_in_pathway_distinct [of "[''C5'', ''C5'', ''C1'']" remdups
      "[Str ''C1'', Str ''C3'', NaNCell]"]
  show ?thesis by simp
qed

text \<open>
  C9. For every pathway the loop body reaches, the first column of the contingency table
  sums to the number of distinct identifiers of \<open>DA_list\<close>: \<open>a + c = |set DA_list|\<close>,
  whatever the background list is. Identifiers of \<open>DA_list\<close> that are not in the background
  list are counted in \<open>a\<close> or \<open>c\<close> all the same.
\<close>

theorem DA_marginal:
  "(case contingency_table DA_list background_list (pathway_compounds_of list_set row) of
      ((a, b), (c, d)) \<Rightarrow> a + c) = card (set DA_list)"
  using a_plus_c [of "pathway_compounds_of list_set row" DA_list, OF pathway_compounds_of_Str]
  by (simp add: contingency_table_def)

theorem DA_marginal_witness:
  "(case contingency_table [''C1'', ''C2'', ''C9'', ''C9''] [''C1'', ''C2'', ''C3'', ''C4'']
       (pathway_compounds_of remdups [Str ''C1'', Str ''C3'', NaNCell]) of
      ((a, b), (c, d)) \<Rightarrow> (a, c)) = (1, 2) \<and> card (set [''C1'', ''C2'', ''C9'', ''C9'']) = 3"
proof -
  have "(case contingency_table [''C1'', ''C2'', ''C9'', ''C9''] [''C1'', ''C2'', ''C3'', ''C4'']
       (pathway_compounds_of remdups [Str ''C1'', Str ''C3'', NaNCell]) of
      ((a, b), (c, d)) \<Rightarrow> (a, c)) = (1, 2)"
    by code_simp
  with DA_marginal [of "[''C1'', ''C2'', ''C9'', ''C9'']" "[''C1'', ''C2'', ''C3'', ''C4'']"
      remdups "[Str ''C1'', Str ''C3'', NaNCell]"]
  show ?thesis by (simp split: prod.splits)
qed

text \<open>
  C2. The claim: with DA_list = {C1, C2}, background_list = {C1, C2, C3, C4} and a pathway
  whose compound set is {C1, C3}, the table is [[1, 1], [1, 1]] and the one-sided (greater)
  Fisher test on it has p-value 1. The table is right; the p-value is not: the probability
  of at least one hit is 1 - 1/6.
\<close>

theorem balanced_table_counterexample:
  "fisher_exact_greater (contingency_table [''C1'', ''C2''] [''C1'', ''C2'', ''C3'', ''C4'']
     [Str ''C1'', Str ''C3'']) \<noteq> 1"
  by code_simp

text \<open>
  C2, as the code has it: for these lists and any row whose compounds, missing
  placeholders apart, are C1 and C3, the table is [[1, 1], [1, 1]], the p-value is 5/6, and
  the analysis of a table with that one row returns one row with Hits 1/2, Coverage 2/2 and
  p-value 5/6.
\<close>

theorem balanced_table:
  assumes "set_order list_set"
    and "{c \<in> set cs. str_cell c \<noteq> ''nan''} = {Str ''C1'', Str ''C3''}"
  shows "contingency_table [''C1'', ''C2''] [''C1'', ''C2'', ''C3'', ''C4'']
           (pathway_compounds_of list_set cs) = ((1, 1), (1, 1)) \<and>
         fisher_exact_greater ((1, 1), (1, 1)) = 5 / 6 \<and>
         over_representation_analysis list_set [''C1'', ''C2''] [''C1'', ''C2'', ''C3'', ''C4'']
           [\<lparr>index = i, name = n, compounds = cs\<rparr>] =
         Inr [\<lparr>Pathway_ID = i, Pathway_name = n, Hits = ''1/2'', Coverage = ''2/2'',
                P_value = 5 / 6, P_adjust = 5 / 6\<rparr>]"
proof -
  let ?DA = "[''C1'', ''C2'']" and ?bg = "[''C1'', ''C2'', ''C3'', ''C4'']"
  let ?pc = "pathway_compounds_of list_set cs"
  let ?r = "\<lparr>index = i, name = n, compounds = cs\<rparr>"
  have s: "set ?pc = set [Str ''C1'', Str ''C3'']"
    using pathway_compounds_of_set(1) [OF assms(1), of cs] assms(2) by simp
  have len: "length ?pc = 2"
    using pathway_compounds_of_length [OF assms(1), of cs] assms(2) by simp
  have t: "contingency_table ?DA ?bg ?pc = ((1, 1), (1, 1))"
    unfolding contingency_table_set(1) [OF s] by code_simp
  have a: "DA_in_pathway ?DA ?pc = 1"
    unfolding contingency_table_set(2) [OF s] by code_simp
  have b: "compound_in_pathway_not_DA ?DA ?bg ?pc = 1"
    unfolding contingency_table_set(3) [OF s] by code_simp
  have str: "str_nat (Suc 0) = ''1''" "str_nat (Suc (Suc 0)) = ''2''" "str_nat 2 = ''2''"
    by code_simp+
  have f: "fisher_exact_greater ((Suc 0, Suc 0), Suc 0, Suc 0) = 5 / 6"
    using fisher_balanced by simp
  have e: "ora_entry list_set ?DA ?bg ?r = Some (i, n, ''1/2'', ''2/2'', 5 / 6)"
    by (simp add: ora_entry_def Let_def len a b t f str)
  have "Str ''C1'' \<in> set cs" using assms(2) by auto
  then have "list_ex (\<lambda>c. \<not> isna c) cs"
    unfolding list_ex_iff by (rule bexI [rotated]) simp
  then have k: "dropna [?r] = [?r]" by (simp add: dropna_def)
  have bh: "fdr_bh [5 / 6] = [5 / 6]" by code_simp
  have "over_representation_analysis list_set ?DA ?bg [?r] =
      Inr [\<lparr>Pathway_ID = i, Pathway_name = n, Hits = ''1/2'', Coverage = ''2/2'',
             P_value = 5 / 6, P_adjust = 5 / 6\<rparr>]"
    by (subst over_representation_analysis_entries)
      (simp_all add: k e List.map_filter_simps bh entry_row_def)
  with t fisher_balanced show ?thesis by simp
qed

theorem balanced_table_witness:
  "set_order remdups \<and>
   {c \<in> set [Str ''C1'', Str ''C3'', NaNCell, Str ''C1'']. str_cell c \<noteq> ''nan''} =
     {Str ''C1'', Str ''C3''} \<and>
   contingency_table [''C1'', ''C2''] [''C1'', ''C2'', ''C3'', ''C4'']
     (pathway_compounds_of remdups [Str ''C1'', Str ''C3'', NaNCell, Str ''C1'']) =
     ((1, 1), (1, 1)) \<and>
   over_representation_analysis remdups [''C1'', ''C2''] [''C1'', ''C2'', ''C3'', ''C4'']
     [\<lparr>index = ''P1'', name = ''Path one'',
        compounds = [Str ''C1'', Str ''C3'', NaNCell, Str ''C1'']\<rparr>] =
   Inr [\<lparr>Pathway_ID = ''P1'', Pathway_name = ''Path one'', Hits = ''1/2'', Coverage = ''2/2'',
          P_value = 5 / 6, P_adjust = 5 / 6\<rparr>]"
proof -
  have h: "{c \<in> set [Str ''C1'', Str ''C3'', NaNCell, Str ''C1'']. str_cell c \<noteq> ''nan''} =
     {Str ''C1'', Str ''C3''}"
    by auto
  from balanced_table [OF set_order_remdups h, of "''P1''" "''Path one''"] set_order_remdups h
  show ?thesis by simp
qed

section \<open>Filters, fallback and order of over_representation_analysis\<close>



text \<open>
  C5. Every row of the result belongs to a row of the input table with the same
  identifier and name, whose compounds, duplicates and missing placeholders apart, are at
  least 2, whose hit count \<open>a\<close> is not 0 and for which \<open>a + b\<close> is at least 2. So a pathway with
  one compound, or with no hit, has no row in the result.
\<close>

theorem emitted_pathway_passes_filters:
  assumes "set_order list_set"
    and "over_representation_analysis list_set DA_list background_list pathways_df = Inr rows"
    and "row \<in> set rows"
  shows "\<exists>r\<in>set pathways_df. index r = Pathway_ID row \<and> name r = Pathway_name row \<and>
           2 \<le> card {c \<in> set (compounds r). str_cell c \<noteq> ''nan''} \<and>
           DA_in_pathway DA_list (pathway_compounds_of list_set (compounds r)) \<noteq> 0 \<and>
           2 \<le> DA_in_pathway DA_list (pathway_compounds_of list_set (compounds r)) +
                compound_in_pathway_not_DA DA_list background_list
                  (pathway_compounds_of list_set (compounds r))"
proof -
  from ora_rows_entry [OF assms(2,3)] obtain r h c p where
    r: "r \<in> set (dropna pathways_df)" and
    e: "ora_entry list_set DA_list background_list r =
          Some (Pathway_ID row, Pathway_name row, h, c, p)"
    by blast
  from r have "r \<in> set pathways_df" by (simp add: dropna_def)
  moreover note ora_entry_Some [OF e]
  moreover note pathway_compounds_of_length [OF assms(1), of "compounds r"]
  ultimately show ?thesis by (intro bexI [of _ r]) simp_all
qed

theorem emitted_pathway_passes_filters_witness:
  "set_order remdups \<and>
   over_representation_analysis remdups [''C1'', ''C2''] [''C1'', ''C2'', ''C3'', ''C4''] ex_df =
   Inr [\<lparr>Pathway_ID = ''P1'', Pathway_name = ''Path one'', Hits = ''1/2'', Coverage = ''2/2'',
          P_value = 5 / 6, P_adjust = 5 / 6\<rparr>,
        \<lparr>Pathway_ID = ''P4'', Pathway_name = ''Path four'', Hits = ''2/3'', Coverage = ''3/3'',
          P_value = 1 / 2, P_adjust = 5 / 6\<rparr>] \<and>
   (\<exists>r\<in>set ex_df. index r = ''P4'' \<and> name r = ''Path four'' \<and>
      2 \<le> card {c \<in> set (compounds r). str_cell c \<noteq> ''nan''} \<and>
      DA_in_pathway [''C1'', ''C2''] (pathway_compounds_of remdups (compounds r)) \<noteq> 0 \<and>
      2 \<le> DA_in_pathway [''C1'', ''C2''] (pathway_compounds_of remdups (compounds r)) +
           compound_in_pathway_not_DA [''C1'', ''C2''] [''C1'', ''C2'', ''C3'', ''C4'']
             (pathway_compounds_of remdups (compounds r)))"
  using emitted_pathway_passes_filters [OF set_order_remdups ex_result,
      of "\<lparr>Pathway_ID = ''P4'', Pathway_name = ''Path four'', Hits = ''2/3'', Coverage = ''3/3'',
          P_value = 1 / 2, P_adjust = 5 / 6\<rparr>"]
    set_order_remdups ex_result
  by simp

text \<open>
  C10. The result does not depend on the order in which Python lists a set: two listings
  of the distinct cells of a row give the same result table, for all inputs.
\<close>

theorem set_order_irrelevant:
  assumes "set_order ls1" and "set_order ls2"
  shows "over_representation_analysis ls1 DA_list background_list pathways_df =
         over_representation_analysis ls2 DA_list background_list pathways_df"
  by (simp add: over_representation_analysis_def ora_loop_order [OF assms])

theorem set_order_irrelevant_witness:
  "set_order remdups \<and> set_order (\<lambda>xs. rev (remdups xs)) \<and>
   remdups (compounds (ex_df ! 3)) \<noteq> rev (remdups (compounds (ex_df ! 3))) \<and>
   over_representation_analysis remdups [''C1'', ''C2''] [''C1'', ''C2'', ''C3'', ''C4''] ex_df =
   over_representation_analysis (\<lambda>xs. rev (remdups xs)) [''C1'', ''C2'']
     [''C1'', ''C2'', ''C3'', ''C4''] ex_df"
proof -
  have "remdups (compounds (ex_df ! 3)) \<noteq> rev (remdups (compounds (ex_df ! 3)))"
    by (simp add: ex_df_def)
  with set_order_irrelevant [OF set_order_remdups set_order_rev_remdups,
      of "[''C1'', ''C2'']" "[''C1'', ''C2'', ''C3'', ''C4'']" ex_df]
    set_order_remdups set_order_rev_remdups
  show ?thesis by simp
qed




section \<open>t_tests: the caller's matrix and degenerate columns\<close>

text \<open>
  C3. The claim: after the call the caller's matrix has the columns and values it had
  before, with no helper column left. The code assigns \<^verbatim>\<open>matrix['Target']\<close> on the caller's
  frame and drops the column only from the two copies: after the call the example matrix has
  a third column.
\<close>

theorem matrix_mutated_counterexample:
  "columns (snd (t_tests t_sf2 bonferroni ex_matrix ex_classes True)) =
     columns ex_matrix @ [(''Target'', [0, 0, 1, 1])]"
  unfolding t_tests_ex_matrix by (simp add: ex_matrix_def)

text \<open>
  C3, as the code has it: when the matrix has no column named Target and the classes are as
  many as the rows, the matrix after the call is the matrix before it, columns and values in
  place, with one more column at the end: Target, holding the class codes.
\<close>

theorem matrix_after_call:
  assumes "''Target'' \<notin> fst ` set (columns matrix)" and "length classes = nrows matrix"
  shows "snd (t_tests sf correction matrix classes return_stat) =
           matrix\<lparr>columns := columns matrix @ [(''Target'', map real (factorize classes))]\<rparr>"
  by (simp add: t_tests_no_Target [OF assms])

theorem matrix_after_call_witness:
  "''Target'' \<notin> fst ` set (columns ex_matrix) \<and> length ex_classes = nrows ex_matrix \<and>
   snd (t_tests t_sf2 bonferroni ex_matrix ex_classes True) =
     \<lparr>nrows = 4, columns = [(''M1'', [5, 5, 5, 5]), (''M2'', [1, 2, 1, 2]),
        (''Target'', [0, 0, 1, 1])]\<rparr>"
proof -
  have nt: "''Target'' \<notin> fst ` set (columns ex_matrix)" by (simp add: ex_matrix_def)
  have len: "length ex_classes = nrows ex_matrix" by (simp add: ex_matrix_def ex_classes_def)
  from matrix_after_call [OF nt len, of t_sf2 bonferroni True] nt len
  show ?thesis by (simp add: factorize_ex ex_matrix_def)
qed







end
